theory Spec2Isabelle
  imports Main "HOL-Library.Char_ord" "HOL-Library.List_Lexorder"
begin

section \<open>The tag dictionary\<close>

text \<open>
  The static table \<^verbatim>\<open>humanToRawKey\<close> of \<^verbatim>\<open>exiv2_bindings.cpp\<close>: human-readable IPTC
  labels and the raw Exiv2 keys they stand for. The source holds it in a
  \<^verbatim>\<open>std::map\<close> and only ever calls \<^verbatim>\<open>find\<close> on it; \<open>map_of humanToRawKey\<close> is that
  lookup.
\<close>

definition humanToRawKey :: "(string \<times> string) list" where
  "humanToRawKey =
    [(''Caption'', ''Iptc.Application2.Caption''),
     (''Keywords'', ''Iptc.Application2.Keywords''),
     (''By-line'', ''Iptc.Application2.Byline''),
     (''By-lineTitle'', ''Iptc.Application2.BylineTitle''),
     (''DateCreated'', ''Iptc.Application2.DateCreated''),
     (''ObjectName'', ''Iptc.Application2.ObjectName''),
     (''Credit'', ''Iptc.Application2.Credit''),
     (''Source'', ''Iptc.Application2.Source''),
     (''CopyrightNotice'', ''Iptc.Application2.CopyrightNotice''),
     (''Headline'', ''Iptc.Application2.Headline''),
     (''SpecialInstructions'', ''Iptc.Application2.SpecialInstructions''),
     (''Category'', ''Iptc.Application2.Category''),
     (''SupplementalCategories'', ''Iptc.Application2.SupplementalCategories''),
     (''Urgency'', ''Iptc.Application2.Urgency''),
     (''City'', ''Iptc.Application2.City''),
     (''Province-State'', ''Iptc.Application2.Province-State''),
     (''Country-PrimaryLocationName'', ''Iptc.Application2.Country-PrimaryLocationName''),
     (''OriginalTransmissionReference'', ''Iptc.Application2.OriginalTransmissionReference'')]"

section \<open>The metadata library, as far as the adapter uses it\<close>

text \<open>
  The adapter is written against the Exiv2 library, which is not part of the repository.
  Its record store \<^verbatim>\<open>Exiv2::IptcData\<close> is a sequence of records \<^verbatim>\<open>Exiv2::Iptcdatum\<close>, each
  with a raw identifier (\<^verbatim>\<open>key()\<close>) and a value (\<^verbatim>\<open>toString()\<close>), kept in occurrence order;
  several records may share an identifier.
\<close>

datatype Iptcdatum = Iptcdatum (key: string) (toString: string)

type_synonym IptcData = "Iptcdatum list"

text \<open>
  Three facilities of the library are taken as parameters of every operation, since their
  tables are the library's own:
  \<^item> the constructor \<^verbatim>\<open>Exiv2::IptcKey(s)\<close>: \<open>IptcKey L s\<close> is \<open>None\<close> when it throws on the
    string \<open>s\<close>, and otherwise the identifier \<^verbatim>\<open>key()\<close> of the key it builds, which is
    \<open>s\<close> with the record and dataset names written the library's way;
  \<^item> \<open>tagName L s\<close>: the name \<^verbatim>\<open>tagName()\<close> of the key built from \<open>s\<close>;
  \<^item> \<open>dataSetRepeatable L k\<close>: whether the library's table lets the dataset with the
    identifier \<open>k\<close> occur more than once.
\<close>

record library =
  IptcKey :: "string \<Rightarrow> string option"
  tagName :: "string \<Rightarrow> string"
  dataSetRepeatable :: "string \<Rightarrow> bool"

text \<open>
  \<^verbatim>\<open>IptcData::findKey\<close>: the position of the first record with the identifier of the key;
  the length of the store stands for the iterator \<^verbatim>\<open>end()\<close>.
\<close>

fun findKey :: "string \<Rightarrow> IptcData \<Rightarrow> nat" where
  "findKey k [] = 0"
| "findKey k (d # ds) = (if key d = k then 0 else Suc (findKey k ds))"

text \<open>
  \<^verbatim>\<open>IptcData::erase(it)\<close> removes the record at position \<open>it\<close>; the iterator it returns
  is the same position, now holding the record that followed.
\<close>

definition erase :: "nat \<Rightarrow> IptcData \<Rightarrow> IptcData" where
  "erase it data = take it data @ drop (Suc it) data"

text \<open>
  \<^verbatim>\<open>IptcData::add\<close> appends the record, unless the dataset cannot repeat and the store
  holds a record of it already: then the store stays as it is. The library reports that
  by the value \<^verbatim>\<open>add\<close> returns, which the adapter does not look at.
\<close>

definition add :: "library \<Rightarrow> IptcData \<Rightarrow> Iptcdatum \<Rightarrow> IptcData" where
  "add L data datum =
    (if \<not> dataSetRepeatable L (key datum) \<and> findKey (key datum) data \<noteq> length data
     then data
     else data @ [datum])"

text \<open>
  A concrete library, used where the operations are evaluated on explicit inputs: a key is
  a dotted identifier \<open>family.record.dataset\<close> of family \<open>Iptc\<close>, kept as it is written;
  the tag name of a key is its dataset part; every dataset may repeat.
\<close>

fun split_dots :: "string \<Rightarrow> string \<Rightarrow> string list" where
  "split_dots acc [] = [acc]"
| "split_dots acc (c # cs) =
    (if c = CHR ''.'' then acc # split_dots [] cs else split_dots (acc @ [c]) cs)"

definition dotted_key_ok :: "string \<Rightarrow> bool" where
  "dotted_key_ok k =
    (case split_dots [] k of
       [f, r, t] \<Rightarrow> f = ''Iptc'' \<and> r \<noteq> [] \<and> t \<noteq> []
     | _ \<Rightarrow> False)"

definition dotted_tag_name :: "string \<Rightarrow> string" where
  "dotted_tag_name k = (case split_dots [] k of [f, r, t] \<Rightarrow> t | _ \<Rightarrow> [])"

definition dotted :: library where
  "dotted =
    \<lparr>IptcKey = (\<lambda>k. if dotted_key_ok k then Some k else None),
     tagName = dotted_tag_name,
     dataSetRepeatable = (\<lambda>k. True)\<rparr>"


section \<open>Python values at the boundary\<close>

text \<open>
  The values pybind11 hands over as \<^verbatim>\<open>py::object\<close>: strings, lists, dictionaries with
  string keys, and anything else. A cast that pybind11 refuses raises; the casts below
  return \<open>None\<close> there.
\<close>

datatype pyobj =
    PyStr string
  | PyList "pyobj list"
  | PyDict "(string \<times> pyobj) list"
  | PyOther

datatype error = InvalidKey string | CastError

fun cast_string :: "pyobj \<Rightarrow> string option" where
  "cast_string (PyStr s) = Some s"
| "cast_string _ = None"

text \<open>
  A \<^verbatim>\<open>std::map\<close> with string keys is kept as its in-order traversal. \<open>map_emplace\<close> is
  \<^verbatim>\<open>emplace\<close> (an existing key keeps its value), \<open>map_assign\<close> is \<^verbatim>\<open>m[k] = v\<close>.
\<close>

fun map_emplace :: "string \<Rightarrow> 'v \<Rightarrow> (string \<times> 'v) list \<Rightarrow> (string \<times> 'v) list" where
  "map_emplace k v [] = [(k, v)]"
| "map_emplace k v ((k', v') # m) =
    (if k = k' then (k', v') # m
     else if k < k' then (k, v) # (k', v') # m
     else (k', v') # map_emplace k v m)"

fun map_assign :: "string \<Rightarrow> 'v \<Rightarrow> (string \<times> 'v) list \<Rightarrow> (string \<times> 'v) list" where
  "map_assign k v [] = [(k, v)]"
| "map_assign k v ((k', v') # m) =
    (if k = k' then (k, v) # m
     else if k < k' then (k, v) # (k', v') # m
     else (k', v') # map_assign k v m)"

text \<open>The cast of a Python dictionary to \<^verbatim>\<open>std::map<std::string, py::object>\<close>.\<close>

fun cast_map :: "pyobj \<Rightarrow> (string \<times> pyobj) list option" where
  "cast_map (PyDict items) = Some (foldl (\<lambda>m (k, v). map_emplace k v m) [] items)"
| "cast_map _ = None"

text \<open>\<^verbatim>\<open>std::set<std::string>::insert\<close>, the set kept as its sorted traversal.\<close>

fun set_insert :: "string \<Rightarrow> string list \<Rightarrow> string list" where
  "set_insert k [] = [k]"
| "set_insert k (x # xs) =
    (if k = x then x # xs
     else if k < x then k # x # xs
     else x # set_insert k xs)"

section \<open>The adapter\<close>

text \<open>
  The state of an opened \<^verbatim>\<open>Exiv2Bind\<close>: the in-memory records of the image handle
  (\<^verbatim>\<open>image_->iptcData()\<close>), the records held by the file, and the number of calls of
  \<^verbatim>\<open>writeMetadata\<close> so far. Writing to storage is taken to succeed.
\<close>

record Exiv2Bind =
  iptcData :: IptcData
  stored :: IptcData
  writes :: nat

definition writeMetadata :: "Exiv2Bind \<Rightarrow> Exiv2Bind" where
  "writeMetadata st = st\<lparr>stored := iptcData st, writes := Suc (writes st)\<rparr>"

subsection \<open>getIptcTag\<close>

definition getIptcTag :: "library \<Rightarrow> Exiv2Bind \<Rightarrow> string \<Rightarrow> error + string" where
  "getIptcTag L st k =
    (case IptcKey L k of
       None \<Rightarrow> Inl (InvalidKey k)
     | Some iptcKey \<Rightarrow>
         let data = iptcData st; pos = findKey iptcKey data
         in Inr (if pos \<noteq> length data then toString (data ! pos) else []))"

subsection \<open>setIptcTag\<close>

text \<open>
  The loop \<^verbatim>\<open>while (it != data.end() && it->key() == key) it = data.erase(it);\<close> shared by
  \<^verbatim>\<open>setIptcTag\<close> and \<^verbatim>\<open>from_dict\<close>. The comparison is with the string the caller gave,
  while \<^verbatim>\<open>findKey\<close> went by the key built from it. A position never passes the end, so
  \<^verbatim>\<open>it != data.end()\<close> is \<open>it < length data\<close>.
\<close>

function erase_loop :: "string \<Rightarrow> nat \<Rightarrow> IptcData \<Rightarrow> IptcData" where
  "erase_loop k it data =
    (if it < length data \<and> key (data ! it) = k then erase_loop k it (erase it data) else data)"
  by pat_completeness auto
termination
  by (relation "measure (\<lambda>(k, it, data). length data)") (auto simp: erase_def)

declare erase_loop.simps [simp del]

definition setIptcTag :: "library \<Rightarrow> Exiv2Bind \<Rightarrow> string \<Rightarrow> string \<Rightarrow> error + Exiv2Bind" where
  "setIptcTag L st k v =
    (case IptcKey L k of
       None \<Rightarrow> Inl (InvalidKey k)
     | Some iptcKey \<Rightarrow>
         let data = iptcData st;
             datum = Iptcdatum iptcKey v;
             data = erase_loop k (findKey iptcKey data) data;
             data = add L data datum
         in Inr (writeMetadata (st\<lparr>iptcData := data\<rparr>)))"

subsection \<open>to\_dict\<close>

definition uniqueKeys :: "IptcData \<Rightarrow> string list" where
  "uniqueKeys data = foldl (\<lambda>s md. set_insert (key md) s) [] data"

text \<open>
  The loop that collects the values of a raw key: from the first record found, while the
  identifier still matches.
\<close>

function collect :: "string \<Rightarrow> nat \<Rightarrow> IptcData \<Rightarrow> string list" where
  "collect rawKey it data =
    (if it < length data \<and> key (data ! it) = rawKey
     then toString (data ! it) # collect rawKey (Suc it) data
     else [])"
  by pat_completeness auto
termination
  by (relation "measure (\<lambda>(rawKey, it, data). length data - it)") auto

declare collect.simps [simp del]

text \<open>The deduplication loop, with its vector \<open>uniq\<close> and its set \<open>seen\<close>.\<close>

fun dedup :: "string list \<Rightarrow> string list \<Rightarrow> string set \<Rightarrow> string list" where
  "dedup [] uniq seen = uniq"
| "dedup (v # vs) uniq seen =
    (if v \<notin> seen then dedup vs (uniq @ [v]) (insert v seen) else dedup vs uniq seen)"

definition label_of :: "library \<Rightarrow> string \<Rightarrow> string" where
  "label_of L rawKey = (let label = tagName L rawKey in if label = [] then rawKey else label)"

text \<open>The multi-versus-single assignment at the end of the loop body.\<close>

definition assign_label :: "string \<Rightarrow> string list \<Rightarrow> (string \<times> pyobj) list \<Rightarrow> (string \<times> pyobj) list" where
  "assign_label label uniq iptc =
    (let isMulti = (label = ''Keywords'')
     in if 1 < length uniq \<or> isMulti then map_assign label (PyList (map PyStr uniq)) iptc
        else if uniq \<noteq> [] then map_assign label (PyStr (hd uniq)) iptc
        else iptc)"

fun to_dict_loop :: "library \<Rightarrow> IptcData \<Rightarrow> string list \<Rightarrow> (string \<times> pyobj) list
    \<Rightarrow> error + (string \<times> pyobj) list" where
  "to_dict_loop L data [] iptc = Inr iptc"
| "to_dict_loop L data (rawKey # ks) iptc =
    (case IptcKey L rawKey of
       None \<Rightarrow> Inl (InvalidKey rawKey)
     | Some iptcKey \<Rightarrow>
         let label = label_of L rawKey;
             vals = collect rawKey (findKey iptcKey data) data;
             uniq = dedup vals [] {}
         in to_dict_loop L data ks (assign_label label uniq iptc))"

definition to_dict :: "library \<Rightarrow> Exiv2Bind \<Rightarrow> error + (string \<times> pyobj) list" where
  "to_dict L st =
    (let data = iptcData st
     in case to_dict_loop L data (uniqueKeys data) [] of
          Inl e \<Rightarrow> Inl e
        | Inr iptc \<Rightarrow> Inr [(''iptc'', PyDict iptc)])"

subsection \<open>from\_dict\<close>

fun add_list :: "library \<Rightarrow> string \<Rightarrow> pyobj list \<Rightarrow> IptcData \<Rightarrow> error + IptcData" where
  "add_list L iptcKey [] data = Inr data"
| "add_list L iptcKey (v # vs) data =
    (case cast_string v of
       None \<Rightarrow> Inl CastError
     | Some s \<Rightarrow> add_list L iptcKey vs (add L data (Iptcdatum iptcKey s)))"

fun from_dict_loop :: "library \<Rightarrow> (string \<times> pyobj) list \<Rightarrow> IptcData \<Rightarrow> error + IptcData" where
  "from_dict_loop L [] data = Inr data"
| "from_dict_loop L ((label, valObj) # section) data =
    (case map_of humanToRawKey label of
       None \<Rightarrow> from_dict_loop L section data
     | Some rawKey \<Rightarrow>
         (case IptcKey L rawKey of
            None \<Rightarrow> Inl (InvalidKey rawKey)
          | Some iptcKey \<Rightarrow>
              let data = erase_loop rawKey (findKey iptcKey data) data
              in (case valObj of
                    PyList vs \<Rightarrow>
                      (case add_list L iptcKey vs data of
                         Inl e \<Rightarrow> Inl e
                       | Inr data \<Rightarrow> from_dict_loop L section data)
                  | _ \<Rightarrow>
                      (case cast_string valObj of
                         None \<Rightarrow> Inl CastError
                       | Some s \<Rightarrow>
                           from_dict_loop L section (add L data (Iptcdatum iptcKey s))))))"

definition from_dict :: "library \<Rightarrow> Exiv2Bind \<Rightarrow> (string \<times> pyobj) list \<Rightarrow> error + Exiv2Bind" where
  "from_dict L st meta =
    (case map_of meta ''iptc'' of
       None \<Rightarrow> Inr st
     | Some sec \<Rightarrow>
         (case cast_map sec of
            None \<Rightarrow> Inl CastError
          | Some section \<Rightarrow>
              (case from_dict_loop L section (iptcData st) of
                 Inl e \<Rightarrow> Inl e
               | Inr data \<Rightarrow> Inr (writeMetadata (st\<lparr>iptcData := data\<rparr>)))))"

section \<open>Notions used to state the properties\<close>

text \<open>
  A raw key in the library's own form: the constructor accepts it and gives the key it
  builds the same identifier.
\<close>

definition canonical :: "library \<Rightarrow> string \<Rightarrow> bool" where
  "canonical L k = (IptcKey L k = Some k)"

text \<open>
  The values \<^verbatim>\<open>add\<close> takes in a row for a key that has no record yet: all of them when
  the dataset may repeat, the first one otherwise.
\<close>

definition accepted :: "library \<Rightarrow> string \<Rightarrow> string list \<Rightarrow> string list" where
  "accepted L k ss = (if dataSetRepeatable L k then ss else take 1 ss)"

text \<open>
  The records of an identifier are contiguous in a store when they stand next to each
  other: after the first run of the identifier has ended, the identifier does not come
  back. In a store sorted by identifier every identifier is contiguous.
\<close>

definition contiguous :: "string \<Rightarrow> IptcData \<Rightarrow> bool" where
  "contiguous k data =
    (k \<notin> key ` set (dropWhile (\<lambda>d. key d = k) (dropWhile (\<lambda>d. key d \<noteq> k) data)))"



section \<open>The loops in closed form\<close>

lemma findKey_takeWhile: "findKey k data = length (takeWhile (\<lambda>d. key d \<noteq> k) data)"
  by (induction data) auto

lemma erase_loop_closed:
  "erase_loop k it data = take it data @ dropWhile (\<lambda>d. key d = k) (drop it data)"
proof (induction k it data rule: erase_loop.induct)
  case (1 k it data)
  show ?case
  proof (cases "it < length data \<and> key (data ! it) = k")
    case True
    then have d: "drop it data = data ! it # drop (Suc it) data"
      by (simp add: Cons_nth_drop_Suc)
    have "erase_loop k it data = erase_loop k it (erase it data)"
      using True by (simp add: erase_loop.simps [of k it data])
    also have "\<dots> = take it (erase it data) @ dropWhile (\<lambda>d. key d = k) (drop it (erase it data))"
      using 1 True by simp
    also have "take it (erase it data) = take it data"
      using True by (simp add: erase_def)
    also have "drop it (erase it data) = drop (Suc it) data"
      using True by (simp add: erase_def)
    finally show ?thesis
      using True d by simp
  next
    case False
    then have "erase_loop k it data = data"
      by (auto simp: erase_loop.simps [of k it data])
    moreover have "take it data @ dropWhile (\<lambda>d. key d = k) (drop it data) = data"
    proof (cases "it < length data")
      case True
      with False have "key (data ! it) \<noteq> k" by simp
      with True have "dropWhile (\<lambda>d. key d = k) (drop it data) = drop it data"
        by (simp add: Cons_nth_drop_Suc [symmetric])
      then show ?thesis by simp
    next
      case False
      then show ?thesis by simp
    qed
    ultimately show ?thesis by simp
  qed
qed

text \<open>What the deletion loop leaves of a store: the first run of the key is gone.\<close>

lemma erase_run:
  "erase_loop k (findKey k data) data =
     takeWhile (\<lambda>d. key d \<noteq> k) data
       @ dropWhile (\<lambda>d. key d = k) (dropWhile (\<lambda>d. key d \<noteq> k) data)"
  by (simp add: erase_loop_closed findKey_takeWhile takeWhile_eq_take [symmetric]
      dropWhile_eq_drop [symmetric])

lemma erase_run_other:
  "k' \<noteq> k \<Longrightarrow>
     filter (\<lambda>d. key d = k') (erase_loop k (findKey k data) data) = filter (\<lambda>d. key d = k') data"
proof -
  assume ne: "k' \<noteq> k"
  have a: "filter (\<lambda>d. key d = k') (dropWhile (\<lambda>d. key d = k) xs) = filter (\<lambda>d. key d = k') xs" for xs
    using ne by (induction xs) auto
  have "filter (\<lambda>d. key d = k') data =
      filter (\<lambda>d. key d = k') (takeWhile (\<lambda>d. key d \<noteq> k) data @ dropWhile (\<lambda>d. key d \<noteq> k) data)"
    by simp
  also have "\<dots> = filter (\<lambda>d. key d = k') (takeWhile (\<lambda>d. key d \<noteq> k) data)
      @ filter (\<lambda>d. key d = k') (dropWhile (\<lambda>d. key d \<noteq> k) data)"
    by (simp only: filter_append)
  finally show ?thesis
    by (simp add: erase_run a)
qed

lemma findKey_end: "findKey k data = length data \<longleftrightarrow> k \<notin> key ` set data"
  by (induction data) auto

lemma findKey_filter:
  "(if findKey k data \<noteq> length data then toString (data ! findKey k data) else [])
     = (case filter (\<lambda>d. key d = k) data of [] \<Rightarrow> [] | d # ds \<Rightarrow> toString d)"
  by (induction data) auto

section \<open>Contiguous identifiers\<close>

lemma filter_none: "k \<notin> key ` set xs \<Longrightarrow> filter (\<lambda>d. key d = k) xs = []"
  by (induction xs) auto

lemma filter_all: "k \<notin> key ` set xs \<Longrightarrow> filter (\<lambda>d. key d \<noteq> k) xs = xs"
  by (induction xs) auto

lemma takeWhile_ne_filter: "filter (\<lambda>d. key d \<noteq> k) (takeWhile (\<lambda>d. key d \<noteq> k) xs) = takeWhile (\<lambda>d. key d \<noteq> k) xs"
  by (induction xs) auto



lemma takeWhile_eq_filter_ne: "filter (\<lambda>d. key d \<noteq> k) (takeWhile (\<lambda>d. key d = k) xs) = []"
  by (induction xs) auto

lemma filter_eq_filter_ne: "filter (\<lambda>d. key d = k) (filter (\<lambda>d. key d \<noteq> k) xs) = []"
  by (induction xs) auto





text \<open>
  On a contiguous identifier the deletion loop removes every record of the identifier,
  and the records of the identifier are the run that starts at the first of them.
\<close>

lemma contiguous_erase_run:
  assumes "contiguous k data"
  shows "erase_loop k (findKey k data) data = filter (\<lambda>d. key d \<noteq> k) data"
proof -
  let ?a = "takeWhile (\<lambda>d. key d \<noteq> k) data"
  let ?b = "takeWhile (\<lambda>d. key d = k) (dropWhile (\<lambda>d. key d \<noteq> k) data)"
  let ?c = "dropWhile (\<lambda>d. key d = k) (dropWhile (\<lambda>d. key d \<noteq> k) data)"
  have c: "filter (\<lambda>d. key d \<noteq> k) ?c = ?c"
    using assms by (simp add: contiguous_def filter_all)
  have "filter (\<lambda>d. key d \<noteq> k) data = filter (\<lambda>d. key d \<noteq> k) (?a @ ?b @ ?c)"
    by simp
  also have "\<dots> = ?a @ ?c"
    by (simp only: filter_append takeWhile_ne_filter takeWhile_eq_filter_ne c append_Nil)
  finally show ?thesis
    by (simp add: erase_run)
qed


text \<open>
  Contiguity as a decomposition of the store, and what keeps it: removing or appending
  records of other identifiers, and appending records of the identifier itself to a store
  that holds none.
\<close>

lemma contiguousI:
  assumes "data = a @ b @ c" "k \<notin> key ` set a" "\<forall>d\<in>set b. key d = k" "k \<notin> key ` set c"
  shows "contiguous k data"
proof -
  have a: "dropWhile (\<lambda>d. key d \<noteq> k) (a @ xs) = dropWhile (\<lambda>d. key d \<noteq> k) xs" for xs
    using assms(2) by (induction a) auto
  have b: "dropWhile (\<lambda>d. key d = k) (b @ xs) = dropWhile (\<lambda>d. key d = k) xs" for xs
    using assms(3) by (induction b) auto
  have c: "dropWhile (\<lambda>d. key d \<noteq> k) c = []"
    using assms(4) by (induction c) auto
  show ?thesis
  proof (cases b)
    case Nil
    then show ?thesis using assms(1) by (simp add: contiguous_def a c)
  next
    case (Cons d ds)
    then have "key d = k" using assms(3) by simp
    then have "dropWhile (\<lambda>d. key d \<noteq> k) (b @ c) = b @ c"
      using Cons by simp
    then show ?thesis
      using assms(1,4) set_dropWhileD [of _ "\<lambda>d. key d = k" c]
      by (auto simp: contiguous_def a b)
  qed
qed

lemma contiguousE:
  assumes "contiguous k data"
  obtains a b c where "data = a @ b @ c" "k \<notin> key ` set a" "\<forall>d\<in>set b. key d = k" "k \<notin> key ` set c"
proof
  show "data = takeWhile (\<lambda>d. key d \<noteq> k) data
      @ takeWhile (\<lambda>d. key d = k) (dropWhile (\<lambda>d. key d \<noteq> k) data)
      @ dropWhile (\<lambda>d. key d = k) (dropWhile (\<lambda>d. key d \<noteq> k) data)"
    by simp
  show "k \<notin> key ` set (takeWhile (\<lambda>d. key d \<noteq> k) data)"
    by (auto dest: set_takeWhileD)
  show "\<forall>d\<in>set (takeWhile (\<lambda>d. key d = k) (dropWhile (\<lambda>d. key d \<noteq> k) data)). key d = k"
    by (auto dest: set_takeWhileD)
  show "k \<notin> key ` set (dropWhile (\<lambda>d. key d = k) (dropWhile (\<lambda>d. key d \<noteq> k) data))"
    using assms by (simp add: contiguous_def)
qed

lemma contiguous_filter_other:
  assumes "contiguous k data" "k' \<noteq> k"
  shows "contiguous k (filter (\<lambda>d. key d \<noteq> k') data)"
proof -
  from assms(1) obtain a b c where
    d: "data = a @ b @ c" "k \<notin> key ` set a" "\<forall>d\<in>set b. key d = k" "k \<notin> key ` set c"
    by (rule contiguousE)
  have "filter (\<lambda>d. key d \<noteq> k') b = b"
    using d(3) assms(2) by (induction b) auto
  then have e: "filter (\<lambda>d. key d \<noteq> k') data
      = filter (\<lambda>d. key d \<noteq> k') a @ b @ filter (\<lambda>d. key d \<noteq> k') c"
    using d(1) by simp
  have na: "k \<notin> key ` set (filter (\<lambda>d. key d \<noteq> k') a)" using d(2) by auto
  have nc: "k \<notin> key ` set (filter (\<lambda>d. key d \<noteq> k') c)" using d(4) by auto
  show ?thesis by (rule contiguousI [OF e na d(3) nc])
qed

lemma contiguous_append_other:
  assumes "contiguous k data" "k \<notin> key ` set ys"
  shows "contiguous k (data @ ys)"
proof -
  from assms(1) obtain a b c where
    d: "data = a @ b @ c" "k \<notin> key ` set a" "\<forall>d\<in>set b. key d = k" "k \<notin> key ` set c"
    by (rule contiguousE)
  have e: "data @ ys = a @ b @ (c @ ys)" using d(1) by simp
  have nc: "k \<notin> key ` set (c @ ys)" using d(4) assms(2) by auto
  show ?thesis by (rule contiguousI [OF e d(2) d(3) nc])
qed

lemma contiguous_append_own:
  assumes "k \<notin> key ` set xs" "\<forall>d\<in>set ys. key d = k"
  shows "contiguous k (xs @ ys)"
  using contiguousI [of "xs @ ys" xs ys "[]" k] assms by simp

lemma sorted_contiguous:
  assumes "sorted (map key data)"
  shows "contiguous k data"
proof -
  have r: "sorted (map key xs) \<Longrightarrow> \<forall>d\<in>set xs. k \<le> key d \<Longrightarrow>
      k \<notin> key ` set (dropWhile (\<lambda>d. key d = k) xs)" for xs
  proof (induction xs)
    case Nil
    then show ?case by simp
  next
    case (Cons x xs)
    show ?case
    proof (cases "key x = k")
      case True
      then show ?thesis using Cons by simp
    next
      case False
      then have "k < key x" using Cons.prems(2) by auto
      then have "\<forall>d\<in>set (x # xs). k < key d"
        using Cons.prems(1) by auto
      then show ?thesis using False by auto
    qed
  qed
  have s: "sorted (map key xs) \<Longrightarrow> sorted (map key (dropWhile P xs))" for P xs
    by (induction xs) auto
  have t: "sorted (map key xs) \<Longrightarrow> \<forall>d\<in>set (dropWhile (\<lambda>d. key d \<noteq> k) xs). k \<le> key d" for xs
    by (induction xs) auto
  show ?thesis
    unfolding contiguous_def using r [OF s [OF assms] t [OF assms]] .
qed





section \<open>The operations in closed form\<close>

subsection \<open>getIptcTag and setIptcTag\<close>

lemma add_fresh: "k \<notin> key ` set data \<Longrightarrow> add L data (Iptcdatum k v) = data @ [Iptcdatum k v]"
  by (simp add: add_def findKey_end)



lemma add_other:
  "k' \<noteq> k \<Longrightarrow>
    filter (\<lambda>d. key d = k') (add L data (Iptcdatum k v)) = filter (\<lambda>d. key d = k') data"
  by (simp add: add_def)






lemma setIptcTag_data:
  "canonical L k \<Longrightarrow>
    setIptcTag L st k v =
      Inr (writeMetadata
        (st\<lparr>iptcData := add L (erase_loop k (findKey k (iptcData st)) (iptcData st)) (Iptcdatum k v)\<rparr>))"
  by (simp add: setIptcTag_def canonical_def Let_def)

lemma setIptcTag_Inr:
  "setIptcTag L st k v = Inr st' \<Longrightarrow> canonical L k \<Longrightarrow>
    iptcData st' = add L (erase_loop k (findKey k (iptcData st)) (iptcData st)) (Iptcdatum k v) \<and>
    stored st' = iptcData st' \<and> writes st' = Suc (writes st)"
  by (auto simp: setIptcTag_def canonical_def Let_def writeMetadata_def)

lemma getIptcTag_filter:
  "IptcKey L k = Some c \<Longrightarrow>
    getIptcTag L st k = Inr (case filter (\<lambda>d. key d = c) (iptcData st) of [] \<Rightarrow> [] | d # ds \<Rightarrow> toString d)"
  by (simp add: getIptcTag_def Let_def findKey_filter)

lemma setIptcTag_contiguous:
  assumes "canonical L k" "contiguous k (iptcData st)"
  shows "setIptcTag L st k v =
      Inr (writeMetadata (st\<lparr>iptcData := filter (\<lambda>d. key d \<noteq> k) (iptcData st) @ [Iptcdatum k v]\<rparr>))"
proof -
  have "k \<notin> key ` set (filter (\<lambda>d. key d \<noteq> k) (iptcData st))"
    by auto
  then show ?thesis
    using assms by (simp add: setIptcTag_data contiguous_erase_run add_fresh)
qed

lemma contiguous_replaced:
  assumes "contiguous k data" "contiguous k' data"
  shows "contiguous k' (filter (\<lambda>d. key d \<noteq> k) data @ [Iptcdatum k v])"
proof (cases "k' = k")
  case True
  have "k \<notin> key ` set (filter (\<lambda>d. key d \<noteq> k) data)"
    by auto
  then have "contiguous k (filter (\<lambda>d. key d \<noteq> k) data @ [Iptcdatum k v])"
    by (rule contiguous_append_own) simp
  then show ?thesis using True by simp
next
  case False
  then have "contiguous k' (filter (\<lambda>d. key d \<noteq> k) data)"
    using assms(2) by (intro contiguous_filter_other) auto
  then show ?thesis
    using False by (intro contiguous_append_other) auto
qed

subsection \<open>The containers\<close>



























subsection \<open>Collecting and deduplicating values\<close>

text \<open>
  The deduplication loop keeps the first occurrence of every value, in source order
  (\<open>dedup_first\<close>; \<open>remdups\<close> keeps last occurrences, hence the reversals).
\<close>

lemma collect_closed:
  "collect k it data = map toString (takeWhile (\<lambda>d. key d = k) (drop it data))"
proof (induction k it data rule: collect.induct)
  case (1 k it data)
  show ?case
  proof (cases "it < length data")
    case True
    then have d: "drop it data = data ! it # drop (Suc it) data"
      by (simp add: Cons_nth_drop_Suc)
    show ?thesis
      using 1 True by (auto simp: collect.simps [of k it data] d)
  next
    case False
    then show ?thesis by (simp add: collect.simps [of k it data])
  qed
qed







lemma remdups_snoc: "remdups (xs @ [v]) = remdups (filter (\<lambda>x. x \<noteq> v) xs) @ [v]"
  by (induction xs) auto

lemma dedup_first_aux:
  "dedup vs uniq (set uniq) = uniq @ rev (remdups (rev (filter (\<lambda>v. v \<notin> set uniq) vs)))"
proof (induction vs arbitrary: uniq)
  case Nil
  then show ?case by simp
next
  case (Cons v vs)
  show ?case
  proof (cases "v \<in> set uniq")
    case True
    then show ?thesis using Cons [of uniq] by simp
  next
    case False
    have "dedup (v # vs) uniq (set uniq) = dedup vs (uniq @ [v]) (set (uniq @ [v]))"
      using False by simp
    also have "\<dots> = (uniq @ [v]) @ rev (remdups (rev (filter (\<lambda>x. x \<notin> set (uniq @ [v])) vs)))"
      by (rule Cons)
    also have "filter (\<lambda>x. x \<notin> set (uniq @ [v])) vs
        = filter (\<lambda>x. x \<noteq> v) (filter (\<lambda>x. x \<notin> set uniq) vs)"
      by (induction vs) auto
    finally show ?thesis
      using False by (simp add: remdups_snoc rev_filter)
  qed
qed

lemma dedup_first: "dedup vs [] {} = rev (remdups (rev vs))"
  using dedup_first_aux [of vs "[]"] by simp

subsection \<open>The loop of to\_dict\<close>













subsection \<open>The loop of from\_dict\<close>












subsection \<open>Evaluation on explicit inputs\<close>

lemma dotted_ok_simps:
  "IptcKey dotted k = (if dotted_key_ok k then Some k else None)"
  "tagName dotted k = dotted_tag_name k"
  "dataSetRepeatable dotted k = True"
  by (simp_all add: dotted_def)

lemmas eval_simps = setIptcTag_def getIptcTag_def from_dict_def to_dict_def uniqueKeys_def
  label_of_def assign_label_def collect_closed erase_loop_closed add_def writeMetadata_def
  dotted_ok_simps dotted_key_ok_def dotted_tag_name_def humanToRawKey_def contiguous_def
  canonical_def accepted_def Let_def

section \<open>The claims\<close>




text \<open>
  C2 (write replaces), as the code has it. For a raw key in the library's own form,
  \<open>setIptcTag\<close> returns; it deletes the first run of records whose identifier equals the
  key, stopping at the first record that does not match, hands one record with the value
  to \<^verbatim>\<open>add\<close>, and writes the whole record set to the file. Where the records of the key
  are contiguous in the store (as they are in a store ordered by identifier, lemma
  \<open>sorted_contiguous\<close>), the deleted records are exactly those of the key, the new record
  is appended, and afterwards the key has exactly one record, with the value written;
  every identifier that was contiguous in the store still is.
\<close>

theorem setIptcTag_replaces:
  assumes "canonical L k"
  shows "\<exists>st'. setIptcTag L st k v = Inr st'
    \<and> iptcData st' =
        add L (takeWhile (\<lambda>d. key d \<noteq> k) (iptcData st)
                @ dropWhile (\<lambda>d. key d = k) (dropWhile (\<lambda>d. key d \<noteq> k) (iptcData st)))
          (Iptcdatum k v)
    \<and> stored st' = iptcData st'
    \<and> writes st' = Suc (writes st)
    \<and> (contiguous k (iptcData st) \<longrightarrow>
         iptcData st' = filter (\<lambda>d. key d \<noteq> k) (iptcData st) @ [Iptcdatum k v]
         \<and> filter (\<lambda>d. key d = k) (iptcData st') = [Iptcdatum k v]
         \<and> (\<forall>k'. contiguous k' (iptcData st) \<longrightarrow> contiguous k' (iptcData st')))"
proof -
  define st' where
    "st' = writeMetadata
      (st\<lparr>iptcData := add L (erase_loop k (findKey k (iptcData st)) (iptcData st)) (Iptcdatum k v)\<rparr>)"
  have r: "setIptcTag L st k v = Inr st'"
    unfolding st'_def using assms by (rule setIptcTag_data)
  have d: "iptcData st' = add L (erase_loop k (findKey k (iptcData st)) (iptcData st)) (Iptcdatum k v)"
    by (simp add: st'_def writeMetadata_def)
  have g: "iptcData st' =
        add L (takeWhile (\<lambda>d. key d \<noteq> k) (iptcData st)
                @ dropWhile (\<lambda>d. key d = k) (dropWhile (\<lambda>d. key d \<noteq> k) (iptcData st)))
          (Iptcdatum k v)"
    by (simp only: d erase_run)
  have s: "stored st' = iptcData st'" "writes st' = Suc (writes st)"
    by (simp_all add: st'_def writeMetadata_def)
  have c: "iptcData st' = filter (\<lambda>d. key d \<noteq> k) (iptcData st) @ [Iptcdatum k v]
         \<and> filter (\<lambda>d. key d = k) (iptcData st') = [Iptcdatum k v]
         \<and> (\<forall>k'. contiguous k' (iptcData st) \<longrightarrow> contiguous k' (iptcData st'))"
    if ck: "contiguous k (iptcData st)"
  proof -
    have "k \<notin> key ` set (filter (\<lambda>d. key d \<noteq> k) (iptcData st))"
      by auto
    then have e: "iptcData st' = filter (\<lambda>d. key d \<noteq> k) (iptcData st) @ [Iptcdatum k v]"
      using ck by (simp add: d contiguous_erase_run add_fresh)
    moreover have "filter (\<lambda>d. key d = k) (iptcData st') = [Iptcdatum k v]"
      by (simp add: e filter_eq_filter_ne)
    moreover have "\<forall>k'. contiguous k' (iptcData st) \<longrightarrow> contiguous k' (iptcData st')"
      unfolding e using ck by (auto intro: contiguous_replaced)
    ultimately show ?thesis by simp
  qed
  show ?thesis
    using r g s c by blast
qed

theorem setIptcTag_replaces_witness:
  "contiguous ''Iptc.Application2.City''
      [Iptcdatum ''Iptc.Application2.Caption'' ''Dusk'',
       Iptcdatum ''Iptc.Application2.City'' ''London'',
       Iptcdatum ''Iptc.Application2.City'' ''Rome'',
       Iptcdatum ''Iptc.Application2.Keywords'' ''sea'']
   \<and> setIptcTag dotted
       \<lparr>iptcData = [Iptcdatum ''Iptc.Application2.Caption'' ''Dusk'',
                    Iptcdatum ''Iptc.Application2.City'' ''London'',
                    Iptcdatum ''Iptc.Application2.City'' ''Rome'',
                    Iptcdatum ''Iptc.Application2.Keywords'' ''sea''],
        stored = [], writes = 0\<rparr> ''Iptc.Application2.City'' ''Paris''
     = Inr \<lparr>iptcData = [Iptcdatum ''Iptc.Application2.Caption'' ''Dusk'',
                        Iptcdatum ''Iptc.Application2.Keywords'' ''sea'',
                        Iptcdatum ''Iptc.Application2.City'' ''Paris''],
            stored = [Iptcdatum ''Iptc.Application2.Caption'' ''Dusk'',
                      Iptcdatum ''Iptc.Application2.Keywords'' ''sea'',
                      Iptcdatum ''Iptc.Application2.City'' ''Paris''],
            writes = 1\<rparr>"
proof -
  let ?st = "\<lparr>iptcData = [Iptcdatum ''Iptc.Application2.Caption'' ''Dusk'',
                    Iptcdatum ''Iptc.Application2.City'' ''London'',
                    Iptcdatum ''Iptc.Application2.City'' ''Rome'',
                    Iptcdatum ''Iptc.Application2.Keywords'' ''sea''],
        stored = [], writes = 0\<rparr>"
  have ok: "canonical dotted ''Iptc.Application2.City''"
    by (simp add: eval_simps)
  have ck: "contiguous ''Iptc.Application2.City'' (iptcData ?st)"
    by (simp add: contiguous_def)
  from setIptcTag_replaces [OF ok, of ?st "''Paris''"]
  obtain st' where r: "setIptcTag dotted ?st ''Iptc.Application2.City'' ''Paris'' = Inr st'"
    and c: "contiguous ''Iptc.Application2.City'' (iptcData ?st) \<longrightarrow>
      iptcData st' = filter (\<lambda>d. key d \<noteq> ''Iptc.Application2.City'') (iptcData ?st)
          @ [Iptcdatum ''Iptc.Application2.City'' ''Paris'']
      \<and> filter (\<lambda>d. key d = ''Iptc.Application2.City'') (iptcData st')
          = [Iptcdatum ''Iptc.Application2.City'' ''Paris'']
      \<and> (\<forall>k'. contiguous k' (iptcData ?st) \<longrightarrow> contiguous k' (iptcData st'))"
    and w: "stored st' = iptcData st'" "writes st' = Suc (writes ?st)"
    by blast
  from c ck have "iptcData st' = filter (\<lambda>d. key d \<noteq> ''Iptc.Application2.City'') (iptcData ?st)
          @ [Iptcdatum ''Iptc.Application2.City'' ''Paris'']"
    by blast
  with r w ck show ?thesis
    by (cases st') simp
qed

text \<open>
  C2 as stated fails on a store whose records of the key are not contiguous: the loop
  stops at the record of \<open>City\<close>, the keyword \<open>c\<close> behind it survives, and two records
  stand under the key afterwards. Nor does the adapter keep a store ordered by
  identifier: the record it writes goes to the end, here behind \<open>Keywords\<close>.
\<close>

theorem setIptcTag_replaces_counterexample:
  "setIptcTag dotted
     \<lparr>iptcData = [Iptcdatum ''Iptc.Application2.Keywords'' ''a'',
                  Iptcdatum ''Iptc.Application2.City'' ''b'',
                  Iptcdatum ''Iptc.Application2.Keywords'' ''c''],
      stored = [Iptcdatum ''Iptc.Application2.Keywords'' ''a'',
                  Iptcdatum ''Iptc.Application2.City'' ''b'',
                  Iptcdatum ''Iptc.Application2.Keywords'' ''c''],
      writes = 0\<rparr> ''Iptc.Application2.Keywords'' ''v''
   = Inr \<lparr>iptcData = [Iptcdatum ''Iptc.Application2.City'' ''b'',
                  Iptcdatum ''Iptc.Application2.Keywords'' ''c'',
                  Iptcdatum ''Iptc.Application2.Keywords'' ''v''],
      stored = [Iptcdatum ''Iptc.Application2.City'' ''b'',
                  Iptcdatum ''Iptc.Application2.Keywords'' ''c'',
                  Iptcdatum ''Iptc.Application2.Keywords'' ''v''],
      writes = 1\<rparr>
   \<and> setIptcTag dotted
     \<lparr>iptcData = [Iptcdatum ''Iptc.Application2.Caption'' ''a'',
                  Iptcdatum ''Iptc.Application2.Keywords'' ''b''],
      stored = [], writes = 0\<rparr> ''Iptc.Application2.Caption'' ''v''
   = Inr \<lparr>iptcData = [Iptcdatum ''Iptc.Application2.Keywords'' ''b'',
                  Iptcdatum ''Iptc.Application2.Caption'' ''v''],
      stored = [Iptcdatum ''Iptc.Application2.Keywords'' ''b'',
                  Iptcdatum ''Iptc.Application2.Caption'' ''v''],
      writes = 1\<rparr>"
  by (simp add: eval_simps)

text \<open>
  C3 (containment of writes), as the code has it. \<open>setIptcTag\<close> hands the in-memory
  records to the file. When it returns for a raw key \<open>k\<close> in the library's own form, the
  records of every other identifier \<open>k'\<close> are the same, in the same order, in memory as
  before, and the file holds under \<open>k'\<close> what memory held before the call. So for an
  adapter whose file holds the records that are in memory (as it does when the image has
  been opened, and after every write that returned) the records of \<open>k'\<close> in the file are
  unchanged; and \<open>getIptcTag\<close> answers as before for every key that the library does
  not read as \<open>k\<close>. Writing \<open>Paris\<close> under \<open>Iptc.Application2.City\<close> then alters no other
  identifier.
\<close>

theorem setIptcTag_frame:
  assumes "setIptcTag L st k v = Inr st'" "canonical L k" "k' \<noteq> k"
  shows "filter (\<lambda>d. key d = k') (iptcData st') = filter (\<lambda>d. key d = k') (iptcData st)
    \<and> filter (\<lambda>d. key d = k') (stored st') = filter (\<lambda>d. key d = k') (iptcData st)
    \<and> (stored st = iptcData st
        \<longrightarrow> filter (\<lambda>d. key d = k') (stored st') = filter (\<lambda>d. key d = k') (stored st))
    \<and> (IptcKey L k' \<noteq> Some k \<longrightarrow> getIptcTag L st' k' = getIptcTag L st k')"
proof -
  from setIptcTag_Inr [OF assms(1,2)] have
    d: "iptcData st' = add L (erase_loop k (findKey k (iptcData st)) (iptcData st)) (Iptcdatum k v)"
    and s: "stored st' = iptcData st'" by simp_all
  have f: "filter (\<lambda>d. key d = c) (iptcData st') = filter (\<lambda>d. key d = c) (iptcData st)"
    if "c \<noteq> k" for c
    using that by (simp add: d add_other erase_run_other)
  have "getIptcTag L st' k' = getIptcTag L st k'" if "IptcKey L k' \<noteq> Some k"
  proof (cases "IptcKey L k'")
    case None
    then show ?thesis by (simp add: getIptcTag_def)
  next
    case (Some c)
    then have "c \<noteq> k" using that by simp
    then show ?thesis by (simp add: getIptcTag_filter [OF Some] f)
  qed
  with f [OF assms(3)] s show ?thesis by simp
qed

theorem setIptcTag_frame_witness:
  "filter (\<lambda>d. key d = ''Iptc.Application2.Caption'')
     (stored \<lparr>iptcData = [Iptcdatum ''Iptc.Application2.Caption'' ''Dusk'',
                  Iptcdatum ''Iptc.Application2.City'' ''Paris''],
      stored = [Iptcdatum ''Iptc.Application2.Caption'' ''Dusk'',
                Iptcdatum ''Iptc.Application2.City'' ''Paris''],
      writes = 1\<rparr>)
   = filter (\<lambda>d. key d = ''Iptc.Application2.Caption'')
     (stored \<lparr>iptcData = [Iptcdatum ''Iptc.Application2.Caption'' ''Dusk'',
                  Iptcdatum ''Iptc.Application2.City'' ''London''],
      stored = [Iptcdatum ''Iptc.Application2.Caption'' ''Dusk'',
                Iptcdatum ''Iptc.Application2.City'' ''London''],
      writes = 0\<rparr>)
   \<and> getIptcTag dotted
     \<lparr>iptcData = [Iptcdatum ''Iptc.Application2.Caption'' ''Dusk'',
                  Iptcdatum ''Iptc.Application2.City'' ''Paris''],
      stored = [Iptcdatum ''Iptc.Application2.Caption'' ''Dusk'',
                Iptcdatum ''Iptc.Application2.City'' ''Paris''],
      writes = 1\<rparr> ''Iptc.Application2.Caption''
   = getIptcTag dotted
     \<lparr>iptcData = [Iptcdatum ''Iptc.Application2.Caption'' ''Dusk'',
                  Iptcdatum ''Iptc.Application2.City'' ''London''],
      stored = [Iptcdatum ''Iptc.Application2.Caption'' ''Dusk'',
                Iptcdatum ''Iptc.Application2.City'' ''London''],
      writes = 0\<rparr> ''Iptc.Application2.Caption''"
proof -
  have s: "setIptcTag dotted
     \<lparr>iptcData = [Iptcdatum ''Iptc.Application2.Caption'' ''Dusk'',
                  Iptcdatum ''Iptc.Application2.City'' ''London''],
      stored = [Iptcdatum ''Iptc.Application2.Caption'' ''Dusk'',
                Iptcdatum ''Iptc.Application2.City'' ''London''],
      writes = 0\<rparr> ''Iptc.Application2.City'' ''Paris''
    = Inr \<lparr>iptcData = [Iptcdatum ''Iptc.Application2.Caption'' ''Dusk'',
                  Iptcdatum ''Iptc.Application2.City'' ''Paris''],
      stored = [Iptcdatum ''Iptc.Application2.Caption'' ''Dusk'',
                Iptcdatum ''Iptc.Application2.City'' ''Paris''],
      writes = 1\<rparr>"
    by (simp add: eval_simps)
  have n: "''Iptc.Application2.Caption'' \<noteq> ''Iptc.Application2.City''"
    by simp
  have c: "canonical dotted ''Iptc.Application2.City''"
    by (simp add: eval_simps)
  from setIptcTag_frame [OF s c n] show ?thesis by (simp add: dotted_ok_simps dotted_key_ok_def)
qed

text \<open>
  C3 as stated fails for an adapter whose file holds a record that memory has lost: the
  file follows memory. That is the state in which a \<open>from_dict\<close> leaves the adapter that
  raised on the value given for the label \<open>Caption\<close>: the records of the label are
  deleted in memory before the value is cast, and nothing is written. Writing \<open>Paris\<close>
  under \<open>Iptc.Application2.City\<close> then takes the caption out of the file.
\<close>

theorem setIptcTag_frame_counterexample:
  "setIptcTag dotted
     \<lparr>iptcData = [Iptcdatum ''Iptc.Application2.City'' ''London''],
      stored = [Iptcdatum ''Iptc.Application2.Caption'' ''old'',
                Iptcdatum ''Iptc.Application2.City'' ''London''],
      writes = 0\<rparr> ''Iptc.Application2.City'' ''Paris''
   = Inr \<lparr>iptcData = [Iptcdatum ''Iptc.Application2.City'' ''Paris''],
          stored = [Iptcdatum ''Iptc.Application2.City'' ''Paris''],
          writes = 1\<rparr>"
  by (simp add: eval_simps)






text \<open>
  C6 (idempotence), as the code has it. For a raw key in the library's own form whose
  records are contiguous in the store, two calls of \<open>setIptcTag\<close> with the same value both
  return, the second call leaves the records as the first call left them, in memory and
  in the file, and exactly one record stands under the key, with the value written.
\<close>

theorem setIptcTag_twice:
  assumes "canonical L k" "contiguous k (iptcData st)"
  shows "\<exists>st1 st2. setIptcTag L st k v = Inr st1 \<and> setIptcTag L st1 k v = Inr st2
    \<and> iptcData st2 = iptcData st1 \<and> stored st2 = stored st1
    \<and> filter (\<lambda>d. key d = k) (iptcData st2) = [Iptcdatum k v]"
proof -
  let ?d1 = "filter (\<lambda>d. key d \<noteq> k) (iptcData st) @ [Iptcdatum k v]"
  define st1 where "st1 = writeMetadata (st\<lparr>iptcData := ?d1\<rparr>)"
  define st2 where "st2 = writeMetadata (st1\<lparr>iptcData := ?d1\<rparr>)"
  have d1: "iptcData st1 = ?d1"
    by (simp add: st1_def writeMetadata_def)
  have 1: "setIptcTag L st k v = Inr st1"
    unfolding st1_def using assms by (rule setIptcTag_contiguous)
  have c1: "contiguous k (iptcData st1)"
    unfolding d1 using assms(2) assms(2) by (rule contiguous_replaced)
  have "filter (\<lambda>d. key d \<noteq> k) (iptcData st1) = filter (\<lambda>d. key d \<noteq> k) (iptcData st)"
    by (simp add: d1)
  then have 2: "setIptcTag L st1 k v = Inr st2"
    unfolding st2_def using setIptcTag_contiguous [OF assms(1) c1, of v] by simp
  show ?thesis
    using 1 2
    by (intro exI [of _ st1] exI [of _ st2])
      (simp add: st1_def st2_def writeMetadata_def filter_eq_filter_ne)
qed

theorem setIptcTag_twice_witness:
  "setIptcTag dotted
     \<lparr>iptcData = [Iptcdatum ''Iptc.Application2.City'' ''London'',
                  Iptcdatum ''Iptc.Application2.Caption'' ''Dusk''],
      stored = [], writes = 0\<rparr> ''Iptc.Application2.City'' ''Paris''
   = Inr \<lparr>iptcData = [Iptcdatum ''Iptc.Application2.Caption'' ''Dusk'',
                      Iptcdatum ''Iptc.Application2.City'' ''Paris''],
          stored = [Iptcdatum ''Iptc.Application2.Caption'' ''Dusk'',
                    Iptcdatum ''Iptc.Application2.City'' ''Paris''],
          writes = 1\<rparr>
   \<and> setIptcTag dotted
     \<lparr>iptcData = [Iptcdatum ''Iptc.Application2.Caption'' ''Dusk'',
                      Iptcdatum ''Iptc.Application2.City'' ''Paris''],
          stored = [Iptcdatum ''Iptc.Application2.Caption'' ''Dusk'',
                    Iptcdatum ''Iptc.Application2.City'' ''Paris''],
          writes = 1\<rparr> ''Iptc.Application2.City'' ''Paris''
   = Inr \<lparr>iptcData = [Iptcdatum ''Iptc.Application2.Caption'' ''Dusk'',
                      Iptcdatum ''Iptc.Application2.City'' ''Paris''],
          stored = [Iptcdatum ''Iptc.Application2.Caption'' ''Dusk'',
                    Iptcdatum ''Iptc.Application2.City'' ''Paris''],
          writes = 2\<rparr>"
  using setIptcTag_twice [where L = dotted and k = "''Iptc.Application2.City''" and v = "''Paris''"
      and st = "\<lparr>iptcData = [Iptcdatum ''Iptc.Application2.City'' ''London'',
                  Iptcdatum ''Iptc.Application2.Caption'' ''Dusk''],
      stored = [], writes = 0\<rparr>"]
  by (simp add: eval_simps)

text \<open>
  C6 as stated fails on a store with three separate runs of the key: each call removes one
  run and appends one record, and three records stand under the key after the second call.
\<close>

theorem setIptcTag_twice_counterexample:
  "setIptcTag dotted
     \<lparr>iptcData = [Iptcdatum ''Iptc.Application2.Keywords'' ''a'',
                  Iptcdatum ''Iptc.Application2.City'' ''b'',
                  Iptcdatum ''Iptc.Application2.Keywords'' ''c'',
                  Iptcdatum ''Iptc.Application2.Caption'' ''d'',
                  Iptcdatum ''Iptc.Application2.Keywords'' ''e''],
      stored = [], writes = 0\<rparr> ''Iptc.Application2.Keywords'' ''v''
   = Inr \<lparr>iptcData = [Iptcdatum ''Iptc.Application2.City'' ''b'',
                  Iptcdatum ''Iptc.Application2.Keywords'' ''c'',
                  Iptcdatum ''Iptc.Application2.Caption'' ''d'',
                  Iptcdatum ''Iptc.Application2.Keywords'' ''e'',
                  Iptcdatum ''Iptc.Application2.Keywords'' ''v''],
          stored = [Iptcdatum ''Iptc.Application2.City'' ''b'',
                  Iptcdatum ''Iptc.Application2.Keywords'' ''c'',
                  Iptcdatum ''Iptc.Application2.Caption'' ''d'',
                  Iptcdatum ''Iptc.Application2.Keywords'' ''e'',
                  Iptcdatum ''Iptc.Application2.Keywords'' ''v''],
          writes = 1\<rparr>
   \<and> setIptcTag dotted
      \<lparr>iptcData = [Iptcdatum ''Iptc.Application2.City'' ''b'',
                  Iptcdatum ''Iptc.Application2.Keywords'' ''c'',
                  Iptcdatum ''Iptc.Application2.Caption'' ''d'',
                  Iptcdatum ''Iptc.Application2.Keywords'' ''e'',
                  Iptcdatum ''Iptc.Application2.Keywords'' ''v''],
          stored = [Iptcdatum ''Iptc.Application2.City'' ''b'',
                  Iptcdatum ''Iptc.Application2.Keywords'' ''c'',
                  Iptcdatum ''Iptc.Application2.Caption'' ''d'',
                  Iptcdatum ''Iptc.Application2.Keywords'' ''e'',
                  Iptcdatum ''Iptc.Application2.Keywords'' ''v''],
          writes = 1\<rparr> ''Iptc.Application2.Keywords'' ''v''
   = Inr \<lparr>iptcData = [Iptcdatum ''Iptc.Application2.City'' ''b'',
                  Iptcdatum ''Iptc.Application2.Caption'' ''d'',
                  Iptcdatum ''Iptc.Application2.Keywords'' ''e'',
                  Iptcdatum ''Iptc.Application2.Keywords'' ''v'',
                  Iptcdatum ''Iptc.Application2.Keywords'' ''v''],
          stored = [Iptcdatum ''Iptc.Application2.City'' ''b'',
                  Iptcdatum ''Iptc.Application2.Caption'' ''d'',
                  Iptcdatum ''Iptc.Application2.Keywords'' ''e'',
                  Iptcdatum ''Iptc.Application2.Keywords'' ''v'',
                  Iptcdatum ''Iptc.Application2.Keywords'' ''v''],
          writes = 2\<rparr>"
  by (simp add: eval_simps)




text \<open>
  C8 (missing section). For an opened adapter, \<open>from_dict\<close> on a document with no
  \<open>iptc\<close> section returns normally and is a no-op: the in-memory records, the records
  held by the file and the number of writes to storage are what they were.
\<close>

theorem from_dict_missing_section:
  "map_of meta ''iptc'' = None \<Longrightarrow> from_dict L st meta = Inr st"
  by (simp add: from_dict_def)

theorem from_dict_missing_section_witness:
  "from_dict dotted \<lparr>iptcData = [Iptcdatum ''Iptc.Application2.City'' ''Paris''],
      stored = [Iptcdatum ''Iptc.Application2.City'' ''Paris''], writes = 0\<rparr> []
    = Inr \<lparr>iptcData = [Iptcdatum ''Iptc.Application2.City'' ''Paris''],
      stored = [Iptcdatum ''Iptc.Application2.City'' ''Paris''], writes = 0\<rparr>"
  using from_dict_missing_section [of "[]" dotted]
  by simp

text \<open>
  C9 (invalid keys). For a string on which the key constructor of the library throws,
  \<open>getIptcTag\<close> raises the constructor's error whatever the store holds. It returns a
  string only for a string the constructor accepts, and the empty string when no record
  has the identifier of the key built from it.
\<close>

theorem getIptcTag_invalid_key:
  "(IptcKey L k = None \<longrightarrow> getIptcTag L st k = Inl (InvalidKey k))
   \<and> (\<forall>c. IptcKey L k = Some c \<and> c \<notin> key ` set (iptcData st) \<longrightarrow> getIptcTag L st k = Inr [])
   \<and> (getIptcTag L st k = Inr s \<longrightarrow> IptcKey L k \<noteq> None)"
  by (auto simp: getIptcTag_filter filter_none) (auto simp: getIptcTag_def split: option.splits)

theorem getIptcTag_invalid_key_witness:
  "getIptcTag dotted
     \<lparr>iptcData = [Iptcdatum ''Iptc.Application2.City'' ''Paris''], stored = [], writes = 0\<rparr>
     ''City'' = Inl (InvalidKey ''City'')
   \<and> getIptcTag dotted
     \<lparr>iptcData = [Iptcdatum ''Iptc.Application2.City'' ''Paris''], stored = [], writes = 0\<rparr>
     ''Iptc.Application2.Headline'' = Inr []"
  using getIptcTag_invalid_key [where L = dotted and k = "''City''"
      and st = "\<lparr>iptcData = [Iptcdatum ''Iptc.Application2.City'' ''Paris''], stored = [], writes = 0\<rparr>"]
    getIptcTag_invalid_key [where L = dotted and k = "''Iptc.Application2.Headline''"
      and st = "\<lparr>iptcData = [Iptcdatum ''Iptc.Application2.City'' ''Paris''], stored = [], writes = 0\<rparr>"]
  by (simp add: dotted_ok_simps dotted_key_ok_def)

text \<open>
  C10 (get after set), as the code has it. When \<open>setIptcTag\<close> for a raw key in the
  library's own form and a value returns and the records of the key were contiguous in
  the store, \<open>getIptcTag\<close> for the key returns the value.
\<close>

theorem get_after_set:
  assumes "setIptcTag L st k v = Inr st'" "canonical L k" "contiguous k (iptcData st)"
  shows "getIptcTag L st' k = Inr v"
proof -
  have "setIptcTag L st k v =
      Inr (writeMetadata (st\<lparr>iptcData := filter (\<lambda>d. key d \<noteq> k) (iptcData st) @ [Iptcdatum k v]\<rparr>))"
    using assms(2,3) by (rule setIptcTag_contiguous)
  then have "iptcData st' = filter (\<lambda>d. key d \<noteq> k) (iptcData st) @ [Iptcdatum k v]"
    using assms(1) by (auto simp: writeMetadata_def)
  then have "filter (\<lambda>d. key d = k) (iptcData st') = [Iptcdatum k v]"
    by (simp add: filter_eq_filter_ne)
  moreover have "IptcKey L k = Some k"
    using assms(2) by (simp add: canonical_def)
  ultimately show ?thesis by (simp add: getIptcTag_filter)
qed

theorem get_after_set_witness:
  "getIptcTag dotted
     \<lparr>iptcData = [Iptcdatum ''Iptc.Application2.Caption'' ''Dusk'',
                  Iptcdatum ''Iptc.Application2.City'' ''Paris''],
      stored = [Iptcdatum ''Iptc.Application2.Caption'' ''Dusk'',
                Iptcdatum ''Iptc.Application2.City'' ''Paris''],
      writes = 1\<rparr> ''Iptc.Application2.City'' = Inr ''Paris''"
proof -
  have s: "setIptcTag dotted
     \<lparr>iptcData = [Iptcdatum ''Iptc.Application2.City'' ''London'',
                  Iptcdatum ''Iptc.Application2.Caption'' ''Dusk''],
      stored = [], writes = 0\<rparr> ''Iptc.Application2.City'' ''Paris''
    = Inr \<lparr>iptcData = [Iptcdatum ''Iptc.Application2.Caption'' ''Dusk'',
                  Iptcdatum ''Iptc.Application2.City'' ''Paris''],
      stored = [Iptcdatum ''Iptc.Application2.Caption'' ''Dusk'',
                Iptcdatum ''Iptc.Application2.City'' ''Paris''],
      writes = 1\<rparr>"
    by (simp add: eval_simps)
  have c: "contiguous ''Iptc.Application2.City''
      (iptcData \<lparr>iptcData = [Iptcdatum ''Iptc.Application2.City'' ''London'',
                  Iptcdatum ''Iptc.Application2.Caption'' ''Dusk''],
      stored = [], writes = 0\<rparr>)"
    by (simp add: contiguous_def)
  have k: "canonical dotted ''Iptc.Application2.City''"
    by (simp add: eval_simps)
  from get_after_set [OF s k c] show ?thesis .
qed

text \<open>
  C10 as stated fails on a store whose records of the key are not contiguous: the first
  record found after the write is the surviving keyword \<open>c\<close>, not the value written.
\<close>

theorem get_after_set_counterexample:
  "setIptcTag dotted
     \<lparr>iptcData = [Iptcdatum ''Iptc.Application2.Keywords'' ''a'',
                  Iptcdatum ''Iptc.Application2.City'' ''b'',
                  Iptcdatum ''Iptc.Application2.Keywords'' ''c''],
      stored = [], writes = 0\<rparr> ''Iptc.Application2.Keywords'' ''v''
   = Inr \<lparr>iptcData = [Iptcdatum ''Iptc.Application2.City'' ''b'',
                  Iptcdatum ''Iptc.Application2.Keywords'' ''c'',
                  Iptcdatum ''Iptc.Application2.Keywords'' ''v''],
      stored = [Iptcdatum ''Iptc.Application2.City'' ''b'',
                  Iptcdatum ''Iptc.Application2.Keywords'' ''c'',
                  Iptcdatum ''Iptc.Application2.Keywords'' ''v''],
      writes = 1\<rparr>
   \<and> getIptcTag dotted
      \<lparr>iptcData = [Iptcdatum ''Iptc.Application2.City'' ''b'',
                  Iptcdatum ''Iptc.Application2.Keywords'' ''c'',
                  Iptcdatum ''Iptc.Application2.Keywords'' ''v''],
      stored = [Iptcdatum ''Iptc.Application2.City'' ''b'',
                  Iptcdatum ''Iptc.Application2.Keywords'' ''c'',
                  Iptcdatum ''Iptc.Application2.Keywords'' ''v''],
      writes = 1\<rparr> ''Iptc.Application2.Keywords'' = Inr ''c''"
  by (simp add: eval_simps)

end
